theory Spec2Isabelle
  imports Main "HOL-Library.AList"
begin

section \<open>JavaScript values\<close>

text \<open>
  Event payloads, avatars and room names are arbitrary JavaScript values that arrive
  over the wire. Numbers are never computed with by the server, so an integer stands
  for them. An object is its list of own properties in insertion order.
\<close>

datatype jsval =
    JUndefined
  | JNull
  | JBool bool
  | JNum int
  | JStr string
  | JArr "jsval list"
  | JObj "(string \<times> jsval) list"

datatype js_error = TypeError

text \<open>
  Reading a property of \<open>undefined\<close> or \<open>null\<close> throws a TypeError. Every handler
  reads a property of its payload before it does anything else, so a handler given such
  a payload throws with no effect performed.
\<close>

fun nullish :: "jsval \<Rightarrow> bool" where
  "nullish JUndefined = True"
| "nullish JNull = True"
| "nullish (JBool b) = False"
| "nullish (JNum n) = False"
| "nullish (JStr s) = False"
| "nullish (JArr xs) = False"
| "nullish (JObj kvs) = False"

text \<open>JavaScript truthiness, as used by \<open>!x\<close>, \<open>if (x)\<close> and \<open>x || null\<close>.\<close>

fun truthy :: "jsval \<Rightarrow> bool" where
  "truthy JUndefined = False"
| "truthy JNull = False"
| "truthy (JBool b) = b"
| "truthy (JNum n) = (n \<noteq> 0)"
| "truthy (JStr s) = (s \<noteq> [])"
| "truthy (JArr xs) = True"
| "truthy (JObj kvs) = True"

text \<open>
  \<open>js_prop v k\<close> is \<open>v.k\<close> for a value \<open>v\<close> that is neither \<open>undefined\<close> nor \<open>null\<close>.
  The handlers read only the names target, room, type, callMode, text, image, to, offer,
  answer and candidate; none of them is a property of a string, number, boolean or
  array, so on those values the read gives \<open>undefined\<close>.
\<close>

fun js_prop :: "jsval \<Rightarrow> string \<Rightarrow> jsval" where
  "js_prop (JObj kvs) k = (case map_of kvs k of Some v \<Rightarrow> v | None \<Rightarrow> JUndefined)"
| "js_prop JUndefined k = JUndefined"
| "js_prop JNull k = JUndefined"
| "js_prop (JBool b) k = JUndefined"
| "js_prop (JNum n) k = JUndefined"
| "js_prop (JStr s) k = JUndefined"
| "js_prop (JArr xs) k = JUndefined"

text \<open>Decimal index keys, for spreading a string or an array into an object.\<close>

function string_of_nat :: "nat \<Rightarrow> string" where
  "string_of_nat n =
     (if n < 10 then [''0123456789'' ! n]
      else string_of_nat (n div 10) @ [''0123456789'' ! (n mod 10)])"
  by pat_completeness auto
termination
  by (relation "measure (\<lambda>n. n)") auto

definition indexed :: "jsval list \<Rightarrow> (string \<times> jsval) list" where
  "indexed xs = zip (map string_of_nat [0..<length xs]) xs"

text \<open>
  \<open>spread v\<close> lists the properties that \<open>{...v}\<close> copies: the own properties of an
  object, the indexed elements of an array or string, nothing otherwise (spreading
  \<open>undefined\<close> or \<open>null\<close> inside an object literal is allowed and copies nothing).
\<close>

fun spread :: "jsval \<Rightarrow> (string \<times> jsval) list" where
  "spread (JObj kvs) = kvs"
| "spread (JArr xs) = indexed xs"
| "spread (JStr s) = indexed (map (\<lambda>c. JStr [c]) s)"
| "spread JUndefined = []"
| "spread JNull = []"
| "spread (JBool b) = []"
| "spread (JNum n) = []"

section \<open>The presence registry\<close>

text \<open>
  The two globals of server.js are JavaScript Maps. A Map iterates in insertion order;
  \<open>set\<close> on a present key replaces the value in place and on a new key appends;
  \<open>delete\<close> removes the key. Association lists with \<open>AList.update\<close> and
  \<open>AList.delete\<close> behave the same way, and \<open>map_of\<close> is \<open>get\<close>.
\<close>

record user =
  username :: string
  isBusy :: bool
  currentRoom :: jsval
  avatar :: jsval

record state =
  onlineUsers :: "(string \<times> user) list"
  userSocketMap :: "(string \<times> string) list"

record socket =
  socket_id :: string
  socket_username :: string

definition init :: state where
  "init = \<lparr>onlineUsers = [], userSocketMap = []\<rparr>"

text \<open>
  \<open>userSocketMap.get(k)\<close>: the keys are usernames (strings), so a key that is not a
  string is never found; a miss gives \<open>undefined\<close>.
\<close>

fun Map_get :: "(string \<times> string) list \<Rightarrow> jsval \<Rightarrow> jsval" where
  "Map_get m (JStr k) = (case map_of m k of Some c \<Rightarrow> JStr c | None \<Rightarrow> JUndefined)"
| "Map_get m JUndefined = JUndefined"
| "Map_get m JNull = JUndefined"
| "Map_get m (JBool b) = JUndefined"
| "Map_get m (JNum n) = JUndefined"
| "Map_get m (JArr xs) = JUndefined"
| "Map_get m (JObj kvs) = JUndefined"

text \<open>The route lookup that initiate-call and private-chat perform.\<close>

definition routeTo :: "state \<Rightarrow> jsval \<Rightarrow> jsval" where
  "routeTo s u = Map_get (userSocketMap s) u"

subsection \<open>getUniqueOnlineUsers\<close>

text \<open>
  One pass over \<open>onlineUsers\<close>: the first session of a username is copied into
  \<open>uniqueMap\<close>; a later session of the same username only raises the copy's
  \<open>isBusy\<close> when it is busy itself.
\<close>

definition uniq_step :: "(string \<times> user) list \<Rightarrow> user \<Rightarrow> (string \<times> user) list" where
  "uniq_step uniqueMap usr =
     (case map_of uniqueMap (username usr) of
        None \<Rightarrow> AList.update (username usr) usr uniqueMap
      | Some existing \<Rightarrow>
          if isBusy usr
          then AList.update (username usr) (existing\<lparr>isBusy := True\<rparr>) uniqueMap
          else uniqueMap)"

definition getUniqueOnlineUsers :: "state \<Rightarrow> user list" where
  "getUniqueOnlineUsers s = map snd (foldl uniq_step [] (map snd (onlineUsers s)))"

definition user_js :: "user \<Rightarrow> jsval" where
  "user_js usr =
     JObj [(''username'', JStr (username usr)), (''isBusy'', JBool (isBusy usr)),
           (''currentRoom'', currentRoom usr), (''avatar'', avatar usr)]"

section \<open>Effects\<close>

text \<open>
  A handler returns the new registry and the effects it performed, in order.
  \<open>ToSocket c\<close> is \<open>socket.emit\<close> on connection \<open>c\<close>; \<open>ToRoomExceptSender c r\<close> is
  \<open>socket.to(r).emit\<close> issued by connection \<open>c\<close>; \<open>ToAll\<close> is \<open>io.emit\<close>.
\<close>

datatype target = ToSocket string | ToRoomExceptSender string jsval | ToAll

datatype action =
    Emit target string jsval
  | JoinRoom string jsval
  | DbQuery string "jsval list"

text \<open>\<open>db.saveMessage\<close>: one INSERT, with \<open>x || null\<close> on receiver, room and image.\<close>

definition or_null :: "jsval \<Rightarrow> jsval" where
  "or_null v = (if truthy v then v else JNull)"

definition saveMessage :: "jsval \<Rightarrow> jsval \<Rightarrow> jsval \<Rightarrow> jsval \<Rightarrow> jsval \<Rightarrow> jsval \<Rightarrow> action" where
  "saveMessage sender receiver room message img kind =
     DbQuery ''INSERT INTO messages (sender, receiver, room, message, image_data, type) VALUES (?, ?, ?, ?, ?, ?)''
       [sender, or_null receiver, or_null room, message, or_null img, kind]"

fun is_save :: "action \<Rightarrow> bool" where
  "is_save (DbQuery q ps) = True"
| "is_save (Emit tg ev p) = False"
| "is_save (JoinRoom c r) = False"

text \<open>\<open>{ ...data, sender: socket.username, time: t }\<close>\<close>

definition stamp :: "jsval \<Rightarrow> string \<Rightarrow> string \<Rightarrow> jsval" where
  "stamp data sender t =
     JObj (AList.update ''time'' (JStr t) (AList.update ''sender'' (JStr sender) (spread data)))"

text \<open>
  The transport (socket.io) decides who receives an emission. Every connected socket is
  a member of the room named by its own id; \<open>socket.to(r).emit\<close> reaches the members of
  \<open>r\<close> other than the emitting socket; \<open>io.emit\<close> reaches every connected socket.
\<close>

record transport =
  sockets :: "string set"
  rooms :: "jsval \<Rightarrow> string set"

fun reaches :: "transport \<Rightarrow> string \<Rightarrow> target \<Rightarrow> bool" where
  "reaches T r (ToSocket c) = (r = c)"
| "reaches T r (ToRoomExceptSender c room) = (r \<in> rooms T room \<and> r \<noteq> c)"
| "reaches T r ToAll = (r \<in> sockets T)"

text \<open>The events (name and payload) that connection \<open>r\<close> receives from a list of effects.\<close>

fun inbox :: "transport \<Rightarrow> string \<Rightarrow> action list \<Rightarrow> (string \<times> jsval) list" where
  "inbox T r [] = []"
| "inbox T r (Emit tg ev p # as) = (if reaches T r tg then (ev, p) # inbox T r as else inbox T r as)"
| "inbox T r (JoinRoom c room # as) = inbox T r as"
| "inbox T r (DbQuery q ps # as) = inbox T r as"

section \<open>The connection handlers\<close>

text \<open>
  The callback of \<open>db.getUserAvatar\<close> in the connection handler; \<open>av\<close> is the value of
  \<open>results?.[0]?.avatar\<close>.
\<close>

definition connection :: "state \<Rightarrow> socket \<Rightarrow> jsval \<Rightarrow> state \<times> action list" where
  "connection s sock av =
     (let s' = s\<lparr>onlineUsers :=
                   AList.update (socket_id sock)
                     \<lparr>username = socket_username sock, isBusy = False, currentRoom = JNull, avatar = av\<rparr>
                     (onlineUsers s),
                 userSocketMap :=
                   AList.update (socket_username sock) (socket_id sock) (userSocketMap s)\<rparr>
      in (s', [Emit ToAll ''update-user-list'' (JArr (map user_js (getUniqueOnlineUsers s')))]))"

definition initiate_call :: "state \<Rightarrow> socket \<Rightarrow> jsval \<Rightarrow> js_error + state \<times> action list" where
  "initiate_call s sock data =
     (if nullish data then Inl TypeError
      else
        let targetId = Map_get (userSocketMap s) (js_prop data ''target'') in
        if \<not> truthy targetId
        then Inr (s, [Emit (ToSocket (socket_id sock)) ''call-rejected''
                        (JObj [(''from'', JStr ''System''), (''reason'', JStr ''offline'')])])
        else Inr (s, [Emit (ToRoomExceptSender (socket_id sock) targetId) ''incoming-call''
                        (JObj [(''from'', JStr (socket_username sock)),
                               (''room'', js_prop data ''room''),
                               (''type'', js_prop data ''type''),
                               (''callMode'', js_prop data ''callMode'')])]))"

definition join :: "state \<Rightarrow> socket \<Rightarrow> jsval \<Rightarrow> js_error + state \<times> action list" where
  "join s sock data =
     (if nullish data then Inl TypeError
      else
        let s' = (case map_of (onlineUsers s) (socket_id sock) of
                    Some usr \<Rightarrow>
                      s\<lparr>onlineUsers :=
                          AList.update (socket_id sock)
                            (usr\<lparr>isBusy := True, currentRoom := js_prop data ''room''\<rparr>)
                            (onlineUsers s)\<rparr>
                  | None \<Rightarrow> s)
        in Inr (s', [JoinRoom (socket_id sock) (js_prop data ''room''),
                     Emit ToAll ''update-user-list'' (JArr (map user_js (getUniqueOnlineUsers s'))),
                     Emit (ToRoomExceptSender (socket_id sock) (js_prop data ''room'')) ''user-joined''
                       (JObj [(''id'', JStr (socket_id sock)),
                              (''username'', JStr (socket_username sock))])]))"

text \<open>\<open>t\<close> is what \<open>new Date().toLocaleTimeString()\<close> returns at the emission.\<close>

definition chat_message :: "state \<Rightarrow> socket \<Rightarrow> jsval \<Rightarrow> string \<Rightarrow> js_error + state \<times> action list" where
  "chat_message s sock data t =
     (if nullish data then Inl TypeError
      else Inr (s, [saveMessage (JStr (socket_username sock)) JNull (js_prop data ''room'')
                      (js_prop data ''text'') (js_prop data ''image'') (JStr ''group''),
                    Emit (ToRoomExceptSender (socket_id sock) (js_prop data ''room'')) ''chat-message''
                      (stamp data (socket_username sock) t)]))"

text \<open>
  \<open>t_fwd\<close> and \<open>t_echo\<close> are the two readings of the clock, at the forward and at the
  echo.
\<close>

definition private_chat ::
  "state \<Rightarrow> socket \<Rightarrow> jsval \<Rightarrow> string \<Rightarrow> string \<Rightarrow> js_error + state \<times> action list" where
  "private_chat s sock data t_fwd t_echo =
     (if nullish data then Inl TypeError
      else
        let targetId = Map_get (userSocketMap s) (js_prop data ''to'') in
        Inr (s, [saveMessage (JStr (socket_username sock)) (js_prop data ''to'') JNull
                   (js_prop data ''text'') (js_prop data ''image'') (JStr ''private'')]
                @ (if truthy targetId
                   then [Emit (ToRoomExceptSender (socket_id sock) targetId) ''private-chat''
                           (stamp data (socket_username sock) t_fwd)]
                   else [])
                @ [Emit (ToSocket (socket_id sock)) ''private-chat''
                     (stamp data (socket_username sock) t_echo)]))"

definition disconnect :: "state \<Rightarrow> socket \<Rightarrow> state \<times> action list" where
  "disconnect s sock =
     (let s' = s\<lparr>onlineUsers := AList.delete (socket_id sock) (onlineUsers s),
                 userSocketMap := AList.delete (socket_username sock) (userSocketMap s)\<rparr>
      in (s', [Emit ToAll ''update-user-list'' (JArr (map user_js (getUniqueOnlineUsers s')))]))"

definition offer :: "state \<Rightarrow> socket \<Rightarrow> jsval \<Rightarrow> js_error + state \<times> action list" where
  "offer s sock d =
     (if nullish d then Inl TypeError
      else Inr (s, [Emit (ToRoomExceptSender (socket_id sock) (js_prop d ''to'')) ''offer''
                      (JObj [(''offer'', js_prop d ''offer''),
                             (''from'', JStr (socket_id sock)),
                             (''username'', JStr (socket_username sock))])]))"

definition answer :: "state \<Rightarrow> socket \<Rightarrow> jsval \<Rightarrow> js_error + state \<times> action list" where
  "answer s sock d =
     (if nullish d then Inl TypeError
      else Inr (s, [Emit (ToRoomExceptSender (socket_id sock) (js_prop d ''to'')) ''answer''
                      (JObj [(''answer'', js_prop d ''answer''),
                             (''from'', JStr (socket_id sock))])]))"

definition ice :: "state \<Rightarrow> socket \<Rightarrow> jsval \<Rightarrow> js_error + state \<times> action list" where
  "ice s sock d =
     (if nullish d then Inl TypeError
      else Inr (s, [Emit (ToRoomExceptSender (socket_id sock) (js_prop d ''to'')) ''ice''
                      (JObj [(''candidate'', js_prop d ''candidate''),
                             (''from'', JStr (socket_id sock))])]))"

section \<open>Runs of the server\<close>

text \<open>
  What happens to the registry over time is a list of events, each naming the
  connection it belongs to. A connection id is generated once by the transport and its
  username is fixed by the credential check, so \<open>who\<close> gives the username of each id.
  \<open>Registered\<close> is the avatar callback of a new connection firing. A handler that
  throws ends the run: nothing catches the exception.
\<close>

datatype event =
    Registered string jsval
  | InitiateCall string jsval
  | Join string jsval
  | ChatMessage string jsval string
  | PrivateChat string jsval string string
  | Disconnect string
  | Offer string jsval
  | Answer string jsval
  | Ice string jsval

definition sock_of :: "(string \<Rightarrow> string) \<Rightarrow> string \<Rightarrow> socket" where
  "sock_of who c = \<lparr>socket_id = c, socket_username = who c\<rparr>"

fun step :: "(string \<Rightarrow> string) \<Rightarrow> state \<Rightarrow> event \<Rightarrow> js_error + state \<times> action list" where
  "step who s (Registered c av) = Inr (connection s (sock_of who c) av)"
| "step who s (InitiateCall c data) = initiate_call s (sock_of who c) data"
| "step who s (Join c data) = join s (sock_of who c) data"
| "step who s (ChatMessage c data t) = chat_message s (sock_of who c) data t"
| "step who s (PrivateChat c data t1 t2) = private_chat s (sock_of who c) data t1 t2"
| "step who s (Disconnect c) = Inr (disconnect s (sock_of who c))"
| "step who s (Offer c d) = offer s (sock_of who c) d"
| "step who s (Answer c d) = answer s (sock_of who c) d"
| "step who s (Ice c d) = ice s (sock_of who c) d"

fun run :: "(string \<Rightarrow> string) \<Rightarrow> state \<Rightarrow> event list \<Rightarrow> js_error + state" where
  "run who s [] = Inr s"
| "run who s (e # es) =
     (case step who s e of Inl err \<Rightarrow> Inl err | Inr (s', acts) \<Rightarrow> run who s' es)"

section \<open>Notions of the specification\<close>

text \<open>
  The most recently registered session of username \<open>u\<close> in a list of events: the
  connection of the last \<open>Registered\<close> event whose connection belongs to \<open>u\<close>.
\<close>

fun last_registered :: "(string \<Rightarrow> string) \<Rightarrow> string \<Rightarrow> event list \<Rightarrow> string option" where
  "last_registered who u [] = None"
| "last_registered who u (e # es) =
     (case last_registered who u es of
        Some c \<Rightarrow> Some c
      | None \<Rightarrow> (case e of Registered c av \<Rightarrow> if who c = u then Some c else None | _ \<Rightarrow> None))"

text \<open>The events that write the route of username \<open>u\<close>.\<close>

fun touches_route :: "(string \<Rightarrow> string) \<Rightarrow> string \<Rightarrow> event \<Rightarrow> bool" where
  "touches_route who u (Registered c av) = (who c = u)"
| "touches_route who u (Disconnect c) = (who c = u)"
| "touches_route who u e = False"

text \<open>
  \<open>merged um seen\<close>: the map \<open>um\<close> holds one entry per username of the sessions
  \<open>seen\<close>, keyed by that username, busy exactly when one of those sessions is.
\<close>

definition merged :: "(string \<times> user) list \<Rightarrow> user list \<Rightarrow> bool" where
  "merged um seen \<longleftrightarrow>
     distinct (map fst um) \<and>
     fst ` set um = username ` set seen \<and>
     (\<forall>k e. (k, e) \<in> set um \<longrightarrow>
        username e = k \<and> (isBusy e \<longleftrightarrow> (\<exists>u \<in> set seen. username u = k \<and> isBusy u)))"

text \<open>
  The registry invariant: every connection id stored as a value of \<open>userSocketMap\<close> is
  a key of \<open>onlineUsers\<close>.
\<close>

definition registry_inv :: "state \<Rightarrow> bool" where
  "registry_inv s \<longleftrightarrow> snd ` set (userSocketMap s) \<subseteq> fst ` set (onlineUsers s)"

text \<open>Every route is stored under the username of the connection it points at.\<close>

definition routes_owned :: "(string \<Rightarrow> string) \<Rightarrow> state \<Rightarrow> bool" where
  "routes_owned who s \<longleftrightarrow> (\<forall>u c. (u, c) \<in> set (userSocketMap s) \<longrightarrow> who c = u)"

text \<open>The events whose handler finds a payload to read.\<close>

fun payload_present :: "event \<Rightarrow> bool" where
  "payload_present (Registered c av) = True"
| "payload_present (Disconnect c) = True"
| "payload_present (InitiateCall c data) = (\<not> nullish data)"
| "payload_present (Join c data) = (\<not> nullish data)"
| "payload_present (ChatMessage c data t) = (\<not> nullish data)"
| "payload_present (PrivateChat c data t1 t2) = (\<not> nullish data)"
| "payload_present (Offer c d) = (\<not> nullish d)"
| "payload_present (Answer c d) = (\<not> nullish d)"
| "payload_present (Ice c d) = (\<not> nullish d)"

text \<open>
  The events that create or destroy the session of connection \<open>c\<close>: its registration
  and its disconnect.
\<close>

fun rewrites_session :: "string \<Rightarrow> event \<Rightarrow> bool" where
  "rewrites_session c (Registered c' av) = (c' = c)"
| "rewrites_session c (Disconnect c') = (c' = c)"
| "rewrites_session c e = False"

text \<open>
  The room of the last join of connection \<open>c\<close> in a list of events, \<open>r\<close> when it
  never joins.
\<close>

fun last_room :: "string \<Rightarrow> jsval \<Rightarrow> event list \<Rightarrow> jsval" where
  "last_room c r [] = r"
| "last_room c r (Join c' data # es) = last_room c (if c' = c then js_prop data ''room'' else r) es"
| "last_room c r (e # es) = last_room c r es"

section \<open>Example states\<close>

definition ex_who :: "string \<Rightarrow> string" where
  "ex_who c = (if c = ''c3'' then ''bob'' else ''alice'')"

definition ex_alice1 :: socket where
  "ex_alice1 = \<lparr>socket_id = ''c1'', socket_username = ''alice''\<rparr>"

definition ex_alice2 :: socket where
  "ex_alice2 = \<lparr>socket_id = ''c2'', socket_username = ''alice''\<rparr>"

definition ex_one :: state where
  "ex_one =
     \<lparr>onlineUsers =
        [(''c1'', \<lparr>username = ''alice'', isBusy = False, currentRoom = JNull, avatar = JNull\<rparr>)],
      userSocketMap = [(''alice'', ''c1'')]\<rparr>"

definition ex_two :: state where
  "ex_two =
     \<lparr>onlineUsers =
        [(''c1'', \<lparr>username = ''alice'', isBusy = False, currentRoom = JNull, avatar = JNull\<rparr>),
         (''c2'', \<lparr>username = ''alice'', isBusy = False, currentRoom = JNull, avatar = JNull\<rparr>)],
      userSocketMap = [(''alice'', ''c2'')]\<rparr>"

definition ex_busy :: state where
  "ex_busy =
     \<lparr>onlineUsers =
        [(''c1'', \<lparr>username = ''alice'', isBusy = True, currentRoom = JStr ''r1'', avatar = JNull\<rparr>),
         (''c2'', \<lparr>username = ''alice'', isBusy = False, currentRoom = JNull, avatar = JNull\<rparr>),
         (''c3'', \<lparr>username = ''bob'', isBusy = False, currentRoom = JNull, avatar = JNull\<rparr>)],
      userSocketMap = [(''alice'', ''c2''), (''bob'', ''c3'')]\<rparr>"

definition ex_joined :: state where
  "ex_joined =
     \<lparr>onlineUsers =
        [(''c1'', \<lparr>username = ''alice'', isBusy = True, currentRoom = JStr ''r1'', avatar = JNull\<rparr>),
         (''c2'', \<lparr>username = ''alice'', isBusy = False, currentRoom = JNull, avatar = JNull\<rparr>)],
      userSocketMap = [(''alice'', ''c2'')]\<rparr>"

definition ex_cleared :: "jsval \<Rightarrow> state" where
  "ex_cleared r =
     \<lparr>onlineUsers =
        [(''c1'', \<lparr>username = ''alice'', isBusy = True, currentRoom = r, avatar = JNull\<rparr>),
         (''c2'', \<lparr>username = ''alice'', isBusy = False, currentRoom = JNull, avatar = JNull\<rparr>)],
      userSocketMap = [(''alice'', ''c2'')]\<rparr>"

definition ex_trace :: "event list" where
  "ex_trace = [Join ''c1'' (JObj [(''room'', JStr ''r1'')]), Registered ''c3'' JNull]"

definition ex_after :: state where
  "ex_after =
     \<lparr>onlineUsers =
        [(''c2'', \<lparr>username = ''alice'', isBusy = False, currentRoom = JNull, avatar = JNull\<rparr>),
         (''c3'', \<lparr>username = ''bob'', isBusy = False, currentRoom = JNull, avatar = JNull\<rparr>)],
      userSocketMap = [(''bob'', ''c3'')]\<rparr>"

definition ex_full :: "event list" where
  "ex_full = Registered ''c1'' JNull # Registered ''c2'' JNull # ex_trace @ [Disconnect ''c1'']"

text \<open>Three connected sockets, each in the room of its own id; \<open>c1\<close> has joined \<open>r1\<close>.\<close>

definition ex_T :: transport where
  "ex_T = \<lparr>sockets = {''c1'', ''c2'', ''c3''},
           rooms = (\<lambda>r. if r = JStr ''c1'' then {''c1''}
                        else if r = JStr ''c2'' then {''c2''}
                        else if r = JStr ''c3'' then {''c3''}
                        else if r = JStr ''r1'' then {''c1''} else {})\<rparr>"

definition ex_call :: "string \<Rightarrow> jsval" where
  "ex_call u = JObj [(''target'', JStr u), (''room'', JStr ''r1''), (''type'', JStr ''video''),
                     (''callMode'', JStr ''p2p'')]"

definition ex_msg :: "string \<Rightarrow> jsval" where
  "ex_msg u = JObj [(''to'', JStr u), (''text'', JStr ''hi'')]"

definition ex_offer :: jsval where
  "ex_offer = JObj [(''to'', JStr ''c2''), (''offer'', JObj [(''sdp'', JStr ''v=0'')])]"

section \<open>Routing\<close>

lemma route_after_connection:
  "routeTo (fst (connection s sock av)) (JStr u) =
     (if u = socket_username sock then JStr (socket_id sock) else routeTo s (JStr u))"
  by (simp add: routeTo_def connection_def Let_def AList.update_conv')

lemma route_after_disconnect:
  "routeTo (fst (disconnect s sock)) (JStr u) =
     (if u = socket_username sock then JUndefined else routeTo s (JStr u))"
  by (simp add: routeTo_def disconnect_def Let_def AList.delete_conv')

lemma step_route:
  assumes "step who s e = Inr (s', acts)"
  shows "routeTo s' (JStr u) =
           (case e of
              Registered c av \<Rightarrow> if who c = u then JStr c else routeTo s (JStr u)
            | Disconnect c \<Rightarrow> if who c = u then JUndefined else routeTo s (JStr u)
            | _ \<Rightarrow> routeTo s (JStr u))"
proof (cases e)
  case (Registered c av)
  with assms have "s' = fst (connection s (sock_of who c) av)" by auto
  then show ?thesis using Registered
    by (auto simp add: route_after_connection sock_of_def)
next
  case (Disconnect c)
  with assms have "s' = fst (disconnect s (sock_of who c))" by auto
  then show ?thesis using Disconnect
    by (auto simp add: route_after_disconnect sock_of_def)
next
  case (Join c data)
  with assms show ?thesis
    by (auto simp add: join_def routeTo_def Let_def split: if_splits option.splits)
qed (use assms in \<open>auto simp add: initiate_call_def chat_message_def private_chat_def
      offer_def answer_def ice_def Let_def split: if_splits\<close>)

lemma run_route_last_registered:
  "run who s0 evs = Inr s \<Longrightarrow> routeTo s (JStr u) = JStr c \<Longrightarrow>
     last_registered who u evs = Some c \<or>
     (last_registered who u evs = None \<and> routeTo s0 (JStr u) = JStr c)"
proof (induction evs arbitrary: s0)
  case Nil
  then show ?case by simp
next
  case (Cons e es)
  from Cons.prems(1) obtain s1 acts where st: "step who s0 e = Inr (s1, acts)"
    and rn: "run who s1 es = Inr s"
    by (auto split: sum.splits)
  from Cons.IH [OF rn Cons.prems(2)]
  show ?case
  proof
    assume "last_registered who u es = Some c"
    then show ?thesis by simp
  next
    assume a: "last_registered who u es = None \<and> routeTo s1 (JStr u) = JStr c"
    with step_route [OF st, of u] show ?thesis
      by (cases e) (auto split: if_splits)
  qed
qed

lemma run_route_kept:
  "run who s0 evs = Inr s \<Longrightarrow> \<forall>e \<in> set evs. \<not> touches_route who u e \<Longrightarrow>
     routeTo s (JStr u) = routeTo s0 (JStr u)"
proof (induction evs arbitrary: s0)
  case Nil
  then show ?case by simp
next
  case (Cons e es)
  from Cons.prems(1) obtain s1 acts where st: "step who s0 e = Inr (s1, acts)"
    and rn: "run who s1 es = Inr s"
    by (auto split: sum.splits)
  have "routeTo s (JStr u) = routeTo s1 (JStr u)"
    using Cons.IH [OF rn] Cons.prems(2) by simp
  moreover have "routeTo s1 (JStr u) = routeTo s0 (JStr u)"
    using step_route [OF st, of u] Cons.prems(2) by (cases e) auto
  ultimately show ?case by simp
qed

text \<open>
  C1. Last writer wins: after the registration of \<open>c1\<close> and then of \<open>c2\<close> under the same
  username \<open>u\<close>, the route of \<open>u\<close> is \<open>c2\<close>; the route written by a registration stays
  until an event of that username (a newer registration or a disconnect) writes it
  again; and in every state reached from the empty registry, a route that is present
  points at the most recently registered session of its username.
\<close>

theorem last_writer_wins:
  "routeTo (fst (connection (fst (connection s \<lparr>socket_id = c1, socket_username = u\<rparr> av1))
                   \<lparr>socket_id = c2, socket_username = u\<rparr> av2)) (JStr u) = JStr c2
   \<and> (run who s (Registered c2 av2 # evs) = Inr s' \<and> (\<forall>e \<in> set evs. \<not> touches_route who (who c2) e)
        \<longrightarrow> routeTo s' (JStr (who c2)) = JStr c2)
   \<and> (run who init trace = Inr s_end \<and> routeTo s_end (JStr v) = JStr c
        \<longrightarrow> last_registered who v trace = Some c)"
proof (intro conjI impI)
  show "routeTo (fst (connection (fst (connection s \<lparr>socket_id = c1, socket_username = u\<rparr> av1))
                   \<lparr>socket_id = c2, socket_username = u\<rparr> av2)) (JStr u) = JStr c2"
    by (simp add: route_after_connection)
next
  assume a: "run who s (Registered c2 av2 # evs) = Inr s' \<and>
             (\<forall>e \<in> set evs. \<not> touches_route who (who c2) e)"
  then have rn: "run who (fst (connection s (sock_of who c2) av2)) evs = Inr s'"
    by (simp add: case_prod_beta)
  from run_route_kept [OF rn] a
  have "routeTo s' (JStr (who c2)) = routeTo (fst (connection s (sock_of who c2) av2)) (JStr (who c2))"
    by blast
  then show "routeTo s' (JStr (who c2)) = JStr c2"
    by (simp add: route_after_connection sock_of_def)
next
  assume a: "run who init trace = Inr s_end \<and> routeTo s_end (JStr v) = JStr c"
  then have "last_registered who v trace = Some c \<or>
     (last_registered who v trace = None \<and> routeTo init (JStr v) = JStr c)"
    using run_route_last_registered by blast
  then show "last_registered who v trace = Some c"
    by (auto simp add: routeTo_def init_def)
qed

lemmas handler_defs =
  connection_def initiate_call_def join_def chat_message_def private_chat_def disconnect_def
  offer_def answer_def ice_def sock_of_def Let_def

lemma ex_run_one: "run ex_who ex_one (Registered ''c2'' JNull # ex_trace) = Inr ex_busy"
  by (simp add: handler_defs ex_who_def ex_one_def ex_busy_def ex_trace_def)

lemma ex_run_init:
  "run ex_who init (Registered ''c1'' JNull # Registered ''c2'' JNull # ex_trace) = Inr ex_busy"
  by (simp add: handler_defs ex_who_def init_def ex_busy_def ex_trace_def)

theorem last_writer_wins_witness:
  "routeTo (fst (connection (fst (connection init \<lparr>socket_id = ''c1'', socket_username = ''alice''\<rparr> JNull))
                   \<lparr>socket_id = ''c2'', socket_username = ''alice''\<rparr> JNull)) (JStr ''alice'') = JStr ''c2''
   \<and> run ex_who ex_one (Registered ''c2'' JNull # ex_trace) = Inr ex_busy
   \<and> filter (touches_route ex_who (ex_who ''c2'')) ex_trace = []
   \<and> routeTo ex_busy (JStr (ex_who ''c2'')) = JStr ''c2''
   \<and> run ex_who init (Registered ''c1'' JNull # Registered ''c2'' JNull # ex_trace) = Inr ex_busy
   \<and> routeTo ex_busy (JStr ''alice'') = JStr ''c2''
   \<and> last_registered ex_who ''alice''
        (Registered ''c1'' JNull # Registered ''c2'' JNull # ex_trace) = Some ''c2''"
proof -
  note w = last_writer_wins [where s = ex_one and who = ex_who and ?c2.0 = "''c2''" and ?av2.0 = JNull
      and evs = ex_trace and s' = ex_busy and v = "''alice''" and c = "''c2''" and s_end = ex_busy
      and trace = "Registered ''c1'' JNull # Registered ''c2'' JNull # ex_trace"]
  have t: "\<forall>e \<in> set ex_trace. \<not> touches_route ex_who (ex_who ''c2'') e"
    by (simp add: ex_trace_def ex_who_def)
  have q: "routeTo ex_busy (JStr ''alice'') = JStr ''c2''"
    by (simp add: routeTo_def ex_busy_def)
  from w ex_run_one t have a: "routeTo ex_busy (JStr (ex_who ''c2'')) = JStr ''c2''"
    by blast
  from w ex_run_init q
  have b: "last_registered ex_who ''alice''
        (Registered ''c1'' JNull # Registered ''c2'' JNull # ex_trace) = Some ''c2''"
    by blast
  have c: "routeTo (fst (connection (fst (connection init \<lparr>socket_id = ''c1'', socket_username = ''alice''\<rparr> JNull))
                   \<lparr>socket_id = ''c2'', socket_username = ''alice''\<rparr> JNull)) (JStr ''alice'') = JStr ''c2''"
    using last_writer_wins [where s = init and ?c1.0 = "''c1''" and ?c2.0 = "''c2''" and u = "''alice''"
        and ?av1.0 = JNull and ?av2.0 = JNull]
    by blast
  have t': "filter (touches_route ex_who (ex_who ''c2'')) ex_trace = []"
    by (simp add: ex_trace_def ex_who_def)
  from a b c t' q ex_run_one ex_run_init show ?thesis by blast
qed

section \<open>Disconnect\<close>

text \<open>
  C2, as the code has it. The disconnect handler removes the connection from
  \<open>onlineUsers\<close> and removes the route of the socket's username from \<open>userSocketMap\<close>
  whatever that route points at; every other session and every other route is left as
  it was.
\<close>

theorem disconnect_removes_route:
  "map_of (onlineUsers (fst (disconnect s sock))) = (map_of (onlineUsers s))(socket_id sock := None)
   \<and> map_of (userSocketMap (fst (disconnect s sock)))
       = (map_of (userSocketMap s))(socket_username sock := None)
   \<and> routeTo (fst (disconnect s sock)) (JStr (socket_username sock)) = JUndefined"
  by (simp add: disconnect_def Let_def AList.delete_conv' routeTo_def)

theorem disconnect_removes_route_witness:
  "map_of (onlineUsers (fst (disconnect ex_two ex_alice2))) ''c1''
     = Some \<lparr>username = ''alice'', isBusy = False, currentRoom = JNull, avatar = JNull\<rparr>
   \<and> map_of (onlineUsers (fst (disconnect ex_two ex_alice2))) ''c2'' = None
   \<and> routeTo (fst (disconnect ex_two ex_alice2)) (JStr ''alice'') = JUndefined"
  using disconnect_removes_route [of ex_two ex_alice2]
  by (simp add: ex_two_def ex_alice2_def)

text \<open>
  C2 as stated fails when an older session of a username disconnects: the route of
  alice points at \<open>c2\<close>, the session \<open>c1\<close> disconnects, \<open>c2\<close> is still in
  \<open>onlineUsers\<close>, and the route of alice is gone.
\<close>

theorem disconnect_stale_session_counterexample:
  "routeTo ex_two (JStr ''alice'') = JStr ''c2''
   \<and> socket_id ex_alice1 \<noteq> ''c2''
   \<and> map_of (onlineUsers (fst (disconnect ex_two ex_alice1))) ''c2'' \<noteq> None
   \<and> routeTo (fst (disconnect ex_two ex_alice1)) (JStr ''alice'') = JUndefined
   \<and> routeTo (fst (disconnect ex_two ex_alice1)) (JStr ''alice'') \<noteq> routeTo ex_two (JStr ''alice'')"
  by (simp add: disconnect_def Let_def routeTo_def ex_two_def ex_alice1_def)

section \<open>The deduplicated presence view\<close>

lemma map_of_uniq_step:
  "map_of (uniq_step um u) =
     (case map_of um (username u) of
        None \<Rightarrow> (map_of um)(username u \<mapsto> u)
      | Some ex \<Rightarrow> if isBusy u then (map_of um)(username u \<mapsto> ex\<lparr>isBusy := True\<rparr>) else map_of um)"
  by (simp add: uniq_step_def AList.update_conv' split: option.splits)

lemma keys_uniq_step: "fst ` set (uniq_step um u) = insert (username u) (fst ` set um)"
proof (cases "map_of um (username u)")
  case None
  then show ?thesis by (simp add: uniq_step_def AList.dom_update)
next
  case (Some ex)
  then have "(username u, ex) \<in> set um" by (rule map_of_SomeD)
  then have "username u \<in> fst ` set um" by force
  then have "insert (username u) (fst ` set um) = fst ` set um" by blast
  with Some show ?thesis by (simp add: uniq_step_def AList.dom_update)
qed

lemma distinct_uniq_step: "distinct (map fst um) \<Longrightarrow> distinct (map fst (uniq_step um u))"
  by (simp add: uniq_step_def AList.distinct_update split: option.splits)

lemma merged_step:
  assumes "merged um seen"
  shows "merged (uniq_step um u) (seen @ [u])"
proof -
  from assms have d: "distinct (map fst um)"
    and k: "fst ` set um = username ` set seen"
    and b: "\<And>k e. map_of um k = Some e \<Longrightarrow>
              username e = k \<and> (isBusy e \<longleftrightarrow> (\<exists>u \<in> set seen. username u = k \<and> isBusy u))"
    by (auto simp add: merged_def)
  have d': "distinct (map fst (uniq_step um u))" using d by (rule distinct_uniq_step)
  have k': "fst ` set (uniq_step um u) = username ` set (seen @ [u])"
    using k by (auto simp add: keys_uniq_step)
  have b': "username e = k \<and> (isBusy e \<longleftrightarrow> (\<exists>v \<in> set (seen @ [u]). username v = k \<and> isBusy v))"
    if "map_of (uniq_step um u) k = Some e" for k e
  proof (cases "map_of um (username u)")
    case None
    then have nk: "username u \<notin> username ` set seen"
      using k by (simp add: map_of_eq_None_iff)
    show ?thesis
    proof (cases "k = username u")
      case True
      with that None have "e = u" by (simp add: map_of_uniq_step)
      from nk have "\<not> (\<exists>v \<in> set seen. username v = username u \<and> isBusy v)"
        by (auto simp add: image_iff)
      with True \<open>e = u\<close> show ?thesis by auto
    next
      case False
      with that None have "map_of um k = Some e" by (simp add: map_of_uniq_step)
      from b [OF this] False show ?thesis by auto
    qed
  next
    case (Some ex)
    note bex = b [OF Some]
    show ?thesis
    proof (cases "k = username u")
      case True
      show ?thesis
      proof (cases "isBusy u")
        case True
        with that Some \<open>k = username u\<close> have "e = ex\<lparr>isBusy := True\<rparr>"
          by (simp add: map_of_uniq_step)
        with bex True \<open>k = username u\<close> show ?thesis by auto
      next
        case False
        with that Some have "map_of um k = Some e" by (simp add: map_of_uniq_step)
        from b [OF this] False \<open>k = username u\<close> show ?thesis by auto
      qed
    next
      case False
      with that Some have "map_of um k = Some e"
        by (simp add: map_of_uniq_step split: if_splits)
      from b [OF this] False show ?thesis by auto
    qed
  qed
  show ?thesis
    unfolding merged_def
  proof (intro conjI)
    show "\<forall>k e. (k, e) \<in> set (uniq_step um u) \<longrightarrow>
       username e = k \<and> (isBusy e \<longleftrightarrow> (\<exists>v\<in>set (seen @ [u]). username v = k \<and> isBusy v))"
      using b' d' by (simp del: set_append)
  qed (rule d', rule k')
qed

lemma merged_foldl: "merged um seen \<Longrightarrow> merged (foldl uniq_step um us) (seen @ us)"
proof (induction us arbitrary: um seen)
  case Nil
  then show ?case by simp
next
  case (Cons u us)
  from Cons.IH [OF merged_step [OF Cons.prems, of u]] show ?case by simp
qed

lemma merged_all: "merged (foldl uniq_step [] us) us"
  using merged_foldl [of "[]" "[]" us] by (simp add: merged_def)

lemma merged_entry:
  "merged um seen \<Longrightarrow> (k, e) \<in> set um \<Longrightarrow>
     username e = k \<and> (isBusy e \<longleftrightarrow> (\<exists>u \<in> set seen. username u = k \<and> isBusy u))"
  by (simp add: merged_def)

lemma snapshot_distinct: "distinct (map username (getUniqueOnlineUsers s))"
proof -
  let ?um = "foldl uniq_step [] (map snd (onlineUsers s))"
  have m: "merged ?um (map snd (onlineUsers s))" by (rule merged_all)
  have "\<forall>p \<in> set ?um. username (snd p) = fst p"
    using merged_entry [OF m] by auto
  then have "map username (map snd ?um) = map fst ?um" by simp
  moreover from m have "distinct (map fst ?um)" by (simp add: merged_def)
  ultimately show ?thesis by (simp only: getUniqueOnlineUsers_def)
qed

lemma snapshot_busy:
  assumes "e \<in> set (getUniqueOnlineUsers s)"
  shows "isBusy e \<longleftrightarrow> (\<exists>u \<in> snd ` set (onlineUsers s). username u = username e \<and> isBusy u)"
proof -
  let ?um = "foldl uniq_step [] (map snd (onlineUsers s))"
  have m: "merged ?um (map snd (onlineUsers s))" by (rule merged_all)
  from assms obtain k where "(k, e) \<in> set ?um"
    by (auto simp add: getUniqueOnlineUsers_def)
  from merged_entry [OF m this] show ?thesis by simp
qed

lemma snapshot_names:
  "username ` set (getUniqueOnlineUsers s) = username ` snd ` set (onlineUsers s)"
proof -
  let ?um = "foldl uniq_step [] (map snd (onlineUsers s))"
  have m: "merged ?um (map snd (onlineUsers s))" by (rule merged_all)
  have e: "\<forall>p \<in> set ?um. username (snd p) = fst p"
    using merged_entry [OF m] by auto
  then have "(\<lambda>p. username (snd p)) ` set ?um = fst ` set ?um" by (intro image_cong) auto
  moreover from m have "fst ` set ?um = username ` set (map snd (onlineUsers s))"
    by (simp add: merged_def)
  ultimately show ?thesis by (simp add: getUniqueOnlineUsers_def image_image)
qed

text \<open>
  C3. In every registry state the snapshot holds at most one entry per username, an
  entry is busy exactly when some session of its username in \<open>onlineUsers\<close> is busy,
  and the usernames of the snapshot are those of the sessions.
\<close>

theorem snapshot_deduplicated:
  "distinct (map username (getUniqueOnlineUsers s)) \<and>
   (\<forall>e \<in> set (getUniqueOnlineUsers s).
      isBusy e \<longleftrightarrow> (\<exists>u \<in> snd ` set (onlineUsers s). username u = username e \<and> isBusy u)) \<and>
   username ` set (getUniqueOnlineUsers s) = username ` snd ` set (onlineUsers s)"
proof (intro conjI ballI)
  show "distinct (map username (getUniqueOnlineUsers s))" by (rule snapshot_distinct)
  show "username ` set (getUniqueOnlineUsers s) = username ` snd ` set (onlineUsers s)"
    by (rule snapshot_names)
  show "isBusy e \<longleftrightarrow> (\<exists>u \<in> snd ` set (onlineUsers s). username u = username e \<and> isBusy u)"
    if "e \<in> set (getUniqueOnlineUsers s)" for e
    using that by (rule snapshot_busy)
qed


lemma ex_busy_snapshot:
  "getUniqueOnlineUsers ex_busy =
     [\<lparr>username = ''alice'', isBusy = True, currentRoom = JStr ''r1'', avatar = JNull\<rparr>,
      \<lparr>username = ''bob'', isBusy = False, currentRoom = JNull, avatar = JNull\<rparr>]"
  by (simp add: getUniqueOnlineUsers_def uniq_step_def ex_busy_def)

theorem snapshot_deduplicated_witness:
  "\<lparr>username = ''alice'', isBusy = True, currentRoom = JStr ''r1'', avatar = JNull\<rparr>
     \<in> set (getUniqueOnlineUsers ex_busy)
   \<and> (\<exists>u \<in> snd ` set (onlineUsers ex_busy). username u = ''alice'' \<and> isBusy u)
   \<and> \<lparr>username = ''bob'', isBusy = False, currentRoom = JNull, avatar = JNull\<rparr>
     \<in> set (getUniqueOnlineUsers ex_busy)
   \<and> \<not> (\<exists>u \<in> snd ` set (onlineUsers ex_busy). username u = ''bob'' \<and> isBusy u)
   \<and> distinct (map username (getUniqueOnlineUsers ex_busy))"
proof -
  note w = snapshot_deduplicated [of ex_busy]
  have m1: "\<lparr>username = ''alice'', isBusy = True, currentRoom = JStr ''r1'', avatar = JNull\<rparr>
     \<in> set (getUniqueOnlineUsers ex_busy)"
    by (simp add: ex_busy_snapshot)
  have m2: "\<lparr>username = ''bob'', isBusy = False, currentRoom = JNull, avatar = JNull\<rparr>
     \<in> set (getUniqueOnlineUsers ex_busy)"
    by (simp add: ex_busy_snapshot)
  from w m1 have b1: "\<exists>u \<in> snd ` set (onlineUsers ex_busy). username u = ''alice'' \<and> isBusy u"
    by force
  from w m2 have b2: "\<not> (\<exists>u \<in> snd ` set (onlineUsers ex_busy). username u = ''bob'' \<and> isBusy u)"
    by force
  from w have d: "distinct (map username (getUniqueOnlineUsers ex_busy))" by blast
  from m1 m2 b1 b2 d show ?thesis by blast
qed

section \<open>Direct messages\<close>

lemma stamp_sender: "js_prop (stamp data u t) ''sender'' = JStr u"
  by (simp add: stamp_def AList.update_conv')

lemma stamp_time: "js_prop (stamp data u t) ''time'' = JStr t"
  by (simp add: stamp_def AList.update_conv')

text \<open>
  C4. For every private-chat event that carries a payload, whatever the registry holds
  (recipient routed or not): exactly one message is handed to \<open>db.saveMessage\<close>, of
  kind private with receiver \<open>data.to\<close>, and the sender's own connection receives
  exactly one private-chat event, the payload stamped with the sender's username and
  the time.
\<close>

theorem private_chat_persists_and_echoes:
  "\<not> nullish data \<Longrightarrow>
   \<exists>acts. private_chat s sock data t_fwd t_echo = Inr (s, acts)
     \<and> filter is_save acts =
         [saveMessage (JStr (socket_username sock)) (js_prop data ''to'') JNull
            (js_prop data ''text'') (js_prop data ''image'') (JStr ''private'')]
     \<and> inbox T (socket_id sock) acts = [(''private-chat'', stamp data (socket_username sock) t_echo)]
     \<and> js_prop (stamp data (socket_username sock) t_echo) ''sender'' = JStr (socket_username sock)
     \<and> js_prop (stamp data (socket_username sock) t_echo) ''time'' = JStr t_echo"
  by (simp add: private_chat_def Let_def saveMessage_def stamp_sender stamp_time)

theorem private_chat_persists_and_echoes_witness:
  "\<not> nullish (ex_msg ''carol'')
   \<and> routeTo ex_busy (JStr ''carol'') = JUndefined
   \<and> private_chat ex_busy ex_alice1 (ex_msg ''carol'') ''10:00'' ''10:01'' =
       Inr (ex_busy,
            [saveMessage (JStr ''alice'') (JStr ''carol'') JNull (JStr ''hi'') JUndefined (JStr ''private''),
             Emit (ToSocket ''c1'') ''private-chat''
               (JObj [(''to'', JStr ''carol''), (''text'', JStr ''hi''), (''sender'', JStr ''alice''),
                      (''time'', JStr ''10:01'')])])
   \<and> (\<exists>acts. private_chat ex_busy ex_alice1 (ex_msg ''carol'') ''10:00'' ''10:01'' = Inr (ex_busy, acts)
         \<and> length (filter is_save acts) = 1
         \<and> inbox ex_T ''c1'' acts =
             [(''private-chat'',
               JObj [(''to'', JStr ''carol''), (''text'', JStr ''hi''), (''sender'', JStr ''alice''),
                     (''time'', JStr ''10:01'')])])"
proof -
  have n: "\<not> nullish (ex_msg ''carol'')" by (simp add: ex_msg_def)
  have r: "routeTo ex_busy (JStr ''carol'') = JUndefined" by (simp add: routeTo_def ex_busy_def)
  have st: "stamp (ex_msg ''carol'') ''alice'' ''10:01'' =
      JObj [(''to'', JStr ''carol''), (''text'', JStr ''hi''), (''sender'', JStr ''alice''),
            (''time'', JStr ''10:01'')]"
    by (simp add: stamp_def ex_msg_def)
  have p: "private_chat ex_busy ex_alice1 (ex_msg ''carol'') ''10:00'' ''10:01'' =
       Inr (ex_busy,
            [saveMessage (JStr ''alice'') (JStr ''carol'') JNull (JStr ''hi'') JUndefined (JStr ''private''),
             Emit (ToSocket ''c1'') ''private-chat''
               (JObj [(''to'', JStr ''carol''), (''text'', JStr ''hi''), (''sender'', JStr ''alice''),
                      (''time'', JStr ''10:01'')])])"
    using r by (simp add: private_chat_def Let_def routeTo_def st ex_alice1_def) (simp add: ex_msg_def)
  from private_chat_persists_and_echoes [OF n, of ex_busy ex_alice1 "''10:00''" "''10:01''" ex_T]
  obtain acts where a: "private_chat ex_busy ex_alice1 (ex_msg ''carol'') ''10:00'' ''10:01'' = Inr (ex_busy, acts)"
    and b: "filter is_save acts =
         [saveMessage (JStr (socket_username ex_alice1)) (js_prop (ex_msg ''carol'') ''to'') JNull
            (js_prop (ex_msg ''carol'') ''text'') (js_prop (ex_msg ''carol'') ''image'') (JStr ''private'')]"
    and c: "inbox ex_T (socket_id ex_alice1) acts =
         [(''private-chat'', stamp (ex_msg ''carol'') (socket_username ex_alice1) ''10:01'')]"
    by blast
  from b have b': "length (filter is_save acts) = 1" by simp
  from c have c': "inbox ex_T ''c1'' acts =
             [(''private-chat'',
               JObj [(''to'', JStr ''carol''), (''text'', JStr ''hi''), (''sender'', JStr ''alice''),
                     (''time'', JStr ''10:01'')])]"
    by (simp add: ex_alice1_def st)
  from n r p a b' c' show ?thesis by blast
qed

section \<open>Call initiation\<close>

text \<open>
  C5. An initiate-call whose payload names a target username with no entry in
  \<open>userSocketMap\<close> performs exactly one effect, a call-rejected event to the caller
  with from = System and reason = offline; the caller receives that one event and no
  connection receives an incoming-call.
\<close>

theorem call_rejected_when_offline:
  "\<not> nullish data \<Longrightarrow> js_prop data ''target'' = JStr u \<Longrightarrow> map_of (userSocketMap s) u = None \<Longrightarrow>
   \<exists>acts. initiate_call s sock data = Inr (s, acts)
     \<and> acts = [Emit (ToSocket (socket_id sock)) ''call-rejected''
                 (JObj [(''from'', JStr ''System''), (''reason'', JStr ''offline'')])]
     \<and> inbox T (socket_id sock) acts =
          [(''call-rejected'', JObj [(''from'', JStr ''System''), (''reason'', JStr ''offline'')])]
     \<and> (\<forall>r. ''incoming-call'' \<notin> fst ` set (inbox T r acts))"
  by (simp add: initiate_call_def Let_def)

theorem call_rejected_when_offline_witness:
  "\<not> nullish (ex_call ''carol'')
   \<and> js_prop (ex_call ''carol'') ''target'' = JStr ''carol''
   \<and> map_of (userSocketMap ex_busy) ''carol'' = None
   \<and> initiate_call ex_busy ex_alice1 (ex_call ''carol'') =
       Inr (ex_busy, [Emit (ToSocket ''c1'') ''call-rejected''
                        (JObj [(''from'', JStr ''System''), (''reason'', JStr ''offline'')])])
   \<and> inbox ex_T ''c1'' [Emit (ToSocket ''c1'') ''call-rejected''
                        (JObj [(''from'', JStr ''System''), (''reason'', JStr ''offline'')])] =
       [(''call-rejected'', JObj [(''from'', JStr ''System''), (''reason'', JStr ''offline'')])]
   \<and> inbox ex_T ''c2'' [Emit (ToSocket ''c1'') ''call-rejected''
                        (JObj [(''from'', JStr ''System''), (''reason'', JStr ''offline'')])] = []"
proof -
  have n: "\<not> nullish (ex_call ''carol'')" by (simp add: ex_call_def)
  have t: "js_prop (ex_call ''carol'') ''target'' = JStr ''carol''" by (simp add: ex_call_def)
  have m: "map_of (userSocketMap ex_busy) ''carol'' = None" by (simp add: ex_busy_def)
  from call_rejected_when_offline [OF n t m, of ex_alice1 ex_T]
  have "initiate_call ex_busy ex_alice1 (ex_call ''carol'') =
       Inr (ex_busy, [Emit (ToSocket ''c1'') ''call-rejected''
                        (JObj [(''from'', JStr ''System''), (''reason'', JStr ''offline'')])])"
    by (simp add: ex_alice1_def)
  with n t m show ?thesis by simp
qed

text \<open>
  C7, as the code has it. When the target of an initiate-call has a route to a
  connected socket \<open>t\<close>, the one effect is an incoming-call emitted with
  \<open>socket.to(t)\<close>, carrying the caller's username, the room, the call type and the call
  mode. \<open>t\<close> receives exactly that one event when it is not the caller's own
  connection; the transport leaves the emitting socket out, so a caller whose route
  points at its own connection receives nothing. No call-rejected is emitted either way.
\<close>

theorem incoming_call_delivery:
  "\<not> nullish data \<Longrightarrow> routeTo s (js_prop data ''target'') = JStr t \<Longrightarrow> t \<noteq> [] \<Longrightarrow>
   t \<in> rooms T (JStr t) \<Longrightarrow>
   \<exists>acts. initiate_call s sock data = Inr (s, acts)
     \<and> inbox T t acts =
          (if t = socket_id sock then []
           else [(''incoming-call'',
                  JObj [(''from'', JStr (socket_username sock)),
                        (''room'', js_prop data ''room''),
                        (''type'', js_prop data ''type''),
                        (''callMode'', js_prop data ''callMode'')])])
     \<and> (\<forall>r. ''call-rejected'' \<notin> fst ` set (inbox T r acts))"
  by (simp add: initiate_call_def Let_def routeTo_def)

theorem incoming_call_delivery_witness:
  "\<not> nullish (ex_call ''bob'')
   \<and> routeTo ex_busy (js_prop (ex_call ''bob'') ''target'') = JStr ''c3''
   \<and> ''c3'' \<in> rooms ex_T (JStr ''c3'')
   \<and> (\<exists>acts. initiate_call ex_busy ex_alice1 (ex_call ''bob'') = Inr (ex_busy, acts)
         \<and> inbox ex_T ''c3'' acts =
             [(''incoming-call'',
               JObj [(''from'', JStr ''alice''), (''room'', JStr ''r1''), (''type'', JStr ''video''),
                     (''callMode'', JStr ''p2p'')])])"
proof -
  have n: "\<not> nullish (ex_call ''bob'')" by (simp add: ex_call_def)
  have r: "routeTo ex_busy (js_prop (ex_call ''bob'') ''target'') = JStr ''c3''"
    by (simp add: routeTo_def ex_busy_def ex_call_def)
  have e: "''c3'' \<noteq> []" by simp
  have m: "''c3'' \<in> rooms ex_T (JStr ''c3'')" by (simp add: ex_T_def)
  from incoming_call_delivery [OF n r e m, of ex_alice1]
  have "\<exists>acts. initiate_call ex_busy ex_alice1 (ex_call ''bob'') = Inr (ex_busy, acts)
         \<and> inbox ex_T ''c3'' acts =
             [(''incoming-call'',
               JObj [(''from'', JStr ''alice''), (''room'', JStr ''r1''), (''type'', JStr ''video''),
                     (''callMode'', JStr ''p2p'')])]
         \<and> (\<forall>r. ''call-rejected'' \<notin> fst ` set (inbox ex_T r acts))"
    by (simp add: ex_alice1_def ex_call_def)
  then have "\<exists>acts. initiate_call ex_busy ex_alice1 (ex_call ''bob'') = Inr (ex_busy, acts)
         \<and> inbox ex_T ''c3'' acts =
             [(''incoming-call'',
               JObj [(''from'', JStr ''alice''), (''room'', JStr ''r1''), (''type'', JStr ''video''),
                     (''callMode'', JStr ''p2p'')])]"
    by blast
  with n r m show ?thesis by blast
qed

text \<open>
  C7 as stated fails for a caller whose own connection is the route of the target:
  alice, connected as \<open>c1\<close> and routed to \<open>c1\<close>, calls alice; the handler emits the
  incoming-call with \<open>socket.to(''c1'')\<close> and \<open>c1\<close> receives no event.
\<close>

theorem incoming_call_to_self_counterexample:
  "routeTo ex_one (js_prop (ex_call ''alice'') ''target'') = JStr ''c1''
   \<and> socket_id ex_alice1 = ''c1''
   \<and> ''c1'' \<in> rooms ex_T (JStr ''c1'')
   \<and> initiate_call ex_one ex_alice1 (ex_call ''alice'') =
       Inr (ex_one, [Emit (ToRoomExceptSender ''c1'' (JStr ''c1'')) ''incoming-call''
                       (JObj [(''from'', JStr ''alice''), (''room'', JStr ''r1''),
                              (''type'', JStr ''video''), (''callMode'', JStr ''p2p'')])])
   \<and> inbox ex_T ''c1'' [Emit (ToRoomExceptSender ''c1'' (JStr ''c1'')) ''incoming-call''
                       (JObj [(''from'', JStr ''alice''), (''room'', JStr ''r1''),
                              (''type'', JStr ''video''), (''callMode'', JStr ''p2p'')])] = []"
  by (simp add: initiate_call_def Let_def routeTo_def ex_one_def ex_alice1_def ex_call_def ex_T_def)

section \<open>Signaling relay\<close>

text \<open>
  C8. For an offer, answer or ice event that carries a payload, the one effect is an
  emission of the same event with \<open>socket.to(d.to)\<close> whose payload is the body
  (\<open>d.offer\<close>, \<open>d.answer\<close>, \<open>d.candidate\<close>) as received, with \<open>from\<close> = the sender's
  connection id, and \<open>username\<close> = the sender's username on offer only; a connected
  target other than the sender receives exactly that event.
\<close>

theorem signaling_forward:
  "\<not> nullish d \<Longrightarrow>
   offer s sock d =
     Inr (s, [Emit (ToRoomExceptSender (socket_id sock) (js_prop d ''to'')) ''offer''
                (JObj [(''offer'', js_prop d ''offer''), (''from'', JStr (socket_id sock)),
                       (''username'', JStr (socket_username sock))])])
   \<and> answer s sock d =
     Inr (s, [Emit (ToRoomExceptSender (socket_id sock) (js_prop d ''to'')) ''answer''
                (JObj [(''answer'', js_prop d ''answer''), (''from'', JStr (socket_id sock))])])
   \<and> ice s sock d =
     Inr (s, [Emit (ToRoomExceptSender (socket_id sock) (js_prop d ''to'')) ''ice''
                (JObj [(''candidate'', js_prop d ''candidate''), (''from'', JStr (socket_id sock))])])
   \<and> (js_prop d ''to'' = JStr t \<and> t \<in> rooms T (JStr t) \<and> t \<noteq> socket_id sock \<longrightarrow>
        (\<exists>acts p. offer s sock d = Inr (s, acts) \<and> inbox T t acts = [(''offer'', p)]
           \<and> js_prop p ''offer'' = js_prop d ''offer'' \<and> js_prop p ''from'' = JStr (socket_id sock)
           \<and> js_prop p ''username'' = JStr (socket_username sock))
      \<and> (\<exists>acts p. answer s sock d = Inr (s, acts) \<and> inbox T t acts = [(''answer'', p)]
           \<and> js_prop p ''answer'' = js_prop d ''answer'' \<and> js_prop p ''from'' = JStr (socket_id sock)
           \<and> js_prop p ''username'' = JUndefined)
      \<and> (\<exists>acts p. ice s sock d = Inr (s, acts) \<and> inbox T t acts = [(''ice'', p)]
           \<and> js_prop p ''candidate'' = js_prop d ''candidate'' \<and> js_prop p ''from'' = JStr (socket_id sock)
           \<and> js_prop p ''username'' = JUndefined))"
  by (simp add: offer_def answer_def ice_def)

theorem signaling_forward_witness:
  "\<not> nullish ex_offer
   \<and> js_prop ex_offer ''to'' = JStr ''c2'' \<and> ''c2'' \<in> rooms ex_T (JStr ''c2'')
   \<and> ''c2'' \<noteq> socket_id ex_alice1
   \<and> offer ex_busy ex_alice1 ex_offer =
       Inr (ex_busy, [Emit (ToRoomExceptSender ''c1'' (JStr ''c2'')) ''offer''
                        (JObj [(''offer'', JObj [(''sdp'', JStr ''v=0'')]), (''from'', JStr ''c1''),
                               (''username'', JStr ''alice'')])])
   \<and> (\<exists>acts p. offer ex_busy ex_alice1 ex_offer = Inr (ex_busy, acts)
         \<and> inbox ex_T ''c2'' acts = [(''offer'', p)]
         \<and> js_prop p ''offer'' = JObj [(''sdp'', JStr ''v=0'')])"
proof -
  have n: "\<not> nullish ex_offer" by (simp add: ex_offer_def)
  have h: "js_prop ex_offer ''to'' = JStr ''c2'' \<and> ''c2'' \<in> rooms ex_T (JStr ''c2'')
             \<and> ''c2'' \<noteq> socket_id ex_alice1"
    by (simp add: ex_offer_def ex_T_def ex_alice1_def)
  note w = signaling_forward [OF n, of ex_busy ex_alice1 "''c2''" ex_T]
  from w have a: "offer ex_busy ex_alice1 ex_offer =
       Inr (ex_busy, [Emit (ToRoomExceptSender ''c1'' (JStr ''c2'')) ''offer''
                        (JObj [(''offer'', JObj [(''sdp'', JStr ''v=0'')]), (''from'', JStr ''c1''),
                               (''username'', JStr ''alice'')])])"
    by (simp add: ex_offer_def ex_alice1_def)
  from w h have "\<exists>acts p. offer ex_busy ex_alice1 ex_offer = Inr (ex_busy, acts)
         \<and> inbox ex_T ''c2'' acts = [(''offer'', p)]
         \<and> js_prop p ''offer'' = js_prop ex_offer ''offer''"
    by blast
  then have b: "\<exists>acts p. offer ex_busy ex_alice1 ex_offer = Inr (ex_busy, acts)
         \<and> inbox ex_T ''c2'' acts = [(''offer'', p)]
         \<and> js_prop p ''offer'' = JObj [(''sdp'', JStr ''v=0'')]"
    by (simp add: ex_offer_def)
  from n h a b show ?thesis by blast
qed

section \<open>Payloads\<close>

text \<open>
  C9, as the code has it. No handler checks its payload. On an absent payload
  (\<open>undefined\<close> or \<open>null\<close>) each of the seven handlers throws a TypeError at its first
  property read, before any effect. On any other payload, whatever fields it lacks, no
  handler throws, and the event is processed with the missing fields read as
  \<open>undefined\<close>: every handler performs at least one effect.
\<close>

theorem payload_safety:
  "(nullish data \<longrightarrow>
      initiate_call s sock data = Inl TypeError \<and> join s sock data = Inl TypeError
      \<and> chat_message s sock data t = Inl TypeError
      \<and> private_chat s sock data t_fwd t_echo = Inl TypeError
      \<and> offer s sock data = Inl TypeError \<and> answer s sock data = Inl TypeError
      \<and> ice s sock data = Inl TypeError)
   \<and> (\<not> nullish data \<longrightarrow>
      (\<exists>acts. initiate_call s sock data = Inr (s, acts) \<and> acts \<noteq> [])
      \<and> (\<exists>s' acts. join s sock data = Inr (s', acts) \<and> acts \<noteq> [])
      \<and> (\<exists>acts. chat_message s sock data t = Inr (s, acts) \<and> acts \<noteq> [])
      \<and> (\<exists>acts. private_chat s sock data t_fwd t_echo = Inr (s, acts) \<and> acts \<noteq> [])
      \<and> (\<exists>acts. offer s sock data = Inr (s, acts) \<and> acts \<noteq> [])
      \<and> (\<exists>acts. answer s sock data = Inr (s, acts) \<and> acts \<noteq> [])
      \<and> (\<exists>acts. ice s sock data = Inr (s, acts) \<and> acts \<noteq> []))"
  by (simp add: initiate_call_def join_def chat_message_def private_chat_def offer_def
      answer_def ice_def Let_def)

theorem payload_safety_witness:
  "nullish JUndefined
   \<and> initiate_call ex_one ex_alice1 JUndefined = Inl TypeError
   \<and> private_chat ex_one ex_alice1 JUndefined ''10:00'' ''10:01'' = Inl TypeError
   \<and> \<not> nullish (JObj [])
   \<and> (\<exists>acts. initiate_call ex_one ex_alice1 (JObj []) = Inr (ex_one, acts) \<and> acts \<noteq> [])
   \<and> (\<exists>acts. ice ex_one ex_alice1 (JObj []) = Inr (ex_one, acts) \<and> acts \<noteq> [])"
proof -
  have n1: "nullish JUndefined" by simp
  have n2: "\<not> nullish (JObj [])" by simp
  from payload_safety [of JUndefined ex_one ex_alice1 "''10:00''" "''10:00''" "''10:01''"] n1
  have a: "initiate_call ex_one ex_alice1 JUndefined = Inl TypeError"
    and b: "private_chat ex_one ex_alice1 JUndefined ''10:00'' ''10:01'' = Inl TypeError"
    by blast+
  from payload_safety [of "JObj []" ex_one ex_alice1 "''10:00''" "''10:00''" "''10:01''"] n2
  have c: "\<exists>acts. initiate_call ex_one ex_alice1 (JObj []) = Inr (ex_one, acts) \<and> acts \<noteq> []"
    and d: "\<exists>acts. ice ex_one ex_alice1 (JObj []) = Inr (ex_one, acts) \<and> acts \<noteq> []"
    by blast+
  from n1 n2 a b c d show ?thesis by blast
qed

text \<open>
  C9 as stated fails on an absent payload, where the handlers throw, and on a payload
  with missing fields, which is not ignored: an initiate-call with the empty object is
  answered with a call-rejected.
\<close>

theorem absent_payload_counterexample:
  "initiate_call ex_one ex_alice1 JUndefined = Inl TypeError
   \<and> join ex_one ex_alice1 JUndefined = Inl TypeError
   \<and> chat_message ex_one ex_alice1 JUndefined ''10:00'' = Inl TypeError
   \<and> private_chat ex_one ex_alice1 JUndefined ''10:00'' ''10:01'' = Inl TypeError
   \<and> offer ex_one ex_alice1 JNull = Inl TypeError
   \<and> answer ex_one ex_alice1 JNull = Inl TypeError
   \<and> ice ex_one ex_alice1 JNull = Inl TypeError
   \<and> initiate_call ex_one ex_alice1 (JObj []) =
       Inr (ex_one, [Emit (ToSocket ''c1'') ''call-rejected''
                       (JObj [(''from'', JStr ''System''), (''reason'', JStr ''offline'')])])"
  by (simp add: initiate_call_def join_def chat_message_def private_chat_def offer_def answer_def
      ice_def Let_def ex_alice1_def ex_one_def)

section \<open>The registry invariant\<close>

lemma set_update_cases:
  "(k', v') \<in> set (AList.update k v al) \<Longrightarrow> (k' = k \<and> v' = v) \<or> (k', v') \<in> set al"
  by (induction al) (auto split: if_splits)

lemma set_delete_cases:
  "(k', v') \<in> set (AList.delete k al) \<longleftrightarrow> (k', v') \<in> set al \<and> k' \<noteq> k"
  by (auto simp add: AList.delete_eq)

lemma keys_delete: "fst ` set (AList.delete k al) = fst ` set al - {k}"
  by (auto simp add: AList.delete_eq image_iff)

lemma step_payload_present: "payload_present e \<Longrightarrow> \<exists>s' acts. step who s e = Inr (s', acts)"
  by (cases e) (simp_all add: handler_defs)

lemma step_maps:
  assumes "step who s e = Inr (s', acts)"
  shows "(case e of
            Registered c av \<Rightarrow>
              onlineUsers s' = AList.update c \<lparr>username = who c, isBusy = False, currentRoom = JNull, avatar = av\<rparr> (onlineUsers s)
              \<and> userSocketMap s' = AList.update (who c) c (userSocketMap s)
          | Disconnect c \<Rightarrow>
              onlineUsers s' = AList.delete c (onlineUsers s)
              \<and> userSocketMap s' = AList.delete (who c) (userSocketMap s)
          | Join c data \<Rightarrow>
              userSocketMap s' = userSocketMap s
              \<and> onlineUsers s' =
                  (case map_of (onlineUsers s) c of
                     Some usr \<Rightarrow> AList.update c (usr\<lparr>isBusy := True, currentRoom := js_prop data ''room''\<rparr>) (onlineUsers s)
                   | None \<Rightarrow> onlineUsers s)
          | _ \<Rightarrow> s' = s)"
  using assms
  by (cases e) (auto simp add: handler_defs split: if_splits option.splits)

lemma step_inv:
  assumes st: "step who s e = Inr (s', acts)"
    and inv: "registry_inv s" and own: "routes_owned who s"
  shows "registry_inv s' \<and> routes_owned who s'"
proof (cases e)
  case (Registered c av)
  with step_maps [OF st]
  have ou: "onlineUsers s' = AList.update c \<lparr>username = who c, isBusy = False, currentRoom = JNull, avatar = av\<rparr> (onlineUsers s)"
    and um: "userSocketMap s' = AList.update (who c) c (userSocketMap s)" by simp_all
  have "c' \<in> fst ` set (onlineUsers s') \<and> who c' = u" if "(u, c') \<in> set (userSocketMap s')" for u c'
  proof -
    from that um have "(u = who c \<and> c' = c) \<or> (u, c') \<in> set (userSocketMap s)"
      using set_update_cases by fastforce
    then show ?thesis
    proof
      assume "u = who c \<and> c' = c"
      then show ?thesis by (simp add: ou AList.dom_update)
    next
      assume m: "(u, c') \<in> set (userSocketMap s)"
      with inv have "c' \<in> fst ` set (onlineUsers s)"
        unfolding registry_inv_def by force
      moreover from m own have "who c' = u" by (simp add: routes_owned_def)
      ultimately show ?thesis by (simp add: ou AList.dom_update)
    qed
  qed
  then show ?thesis unfolding registry_inv_def routes_owned_def by force
next
  case (Disconnect c)
  with step_maps [OF st]
  have ou: "onlineUsers s' = AList.delete c (onlineUsers s)"
    and um: "userSocketMap s' = AList.delete (who c) (userSocketMap s)" by simp_all
  have "c' \<in> fst ` set (onlineUsers s') \<and> who c' = u" if "(u, c') \<in> set (userSocketMap s')" for u c'
  proof -
    from that um have m: "(u, c') \<in> set (userSocketMap s)" and ne: "u \<noteq> who c"
      by (simp_all add: set_delete_cases)
    from m own have w: "who c' = u" by (simp add: routes_owned_def)
    with ne have "c' \<noteq> c" by auto
    moreover from m inv have "c' \<in> fst ` set (onlineUsers s)"
      unfolding registry_inv_def by force
    ultimately show ?thesis using w by (simp add: ou keys_delete)
  qed
  then show ?thesis unfolding registry_inv_def routes_owned_def by force
next
  case (Join c data)
  with step_maps [OF st]
  have um: "userSocketMap s' = userSocketMap s"
    and ou: "onlineUsers s' =
                  (case map_of (onlineUsers s) c of
                     Some usr \<Rightarrow> AList.update c (usr\<lparr>isBusy := True, currentRoom := js_prop data ''room''\<rparr>) (onlineUsers s)
                   | None \<Rightarrow> onlineUsers s)" by simp_all
  from ou have "fst ` set (onlineUsers s) \<subseteq> fst ` set (onlineUsers s')"
    by (simp add: AList.dom_update split: option.splits) blast
  with inv own um show ?thesis
    unfolding registry_inv_def routes_owned_def by auto
qed (use step_maps [OF st] inv own in simp_all)

lemma run_inv:
  "run who s evs = Inr s' \<Longrightarrow> registry_inv s \<Longrightarrow> routes_owned who s \<Longrightarrow>
     registry_inv s' \<and> routes_owned who s'"
proof (induction evs arbitrary: s)
  case Nil
  then show ?case by simp
next
  case (Cons e es)
  from Cons.prems(1) obtain s1 acts where st: "step who s e = Inr (s1, acts)"
    and rn: "run who s1 es = Inr s'"
    by (auto split: sum.splits)
  from step_inv [OF st Cons.prems(2,3)] Cons.IH [OF rn] show ?case by blast
qed

lemma run_total: "list_all payload_present evs \<Longrightarrow> \<exists>s'. run who s evs = Inr s'"
proof (induction evs arbitrary: s)
  case Nil
  then show ?case by simp
next
  case (Cons e es)
  then obtain s1 acts where st: "step who s e = Inr (s1, acts)"
    using step_payload_present [of e who s] by auto
  from Cons obtain s' where "run who s1 es = Inr s'" by fastforce
  with st show ?case by simp
qed

text \<open>
  C6. In every state the server reaches from the empty registry by any sequence of
  events (registrations, joins, disconnects and the handlers that leave the registry
  alone), every connection id stored in \<open>userSocketMap\<close> is a key of \<open>onlineUsers\<close>;
  and a sequence of events that all carry their payload does reach a state.
\<close>

theorem registry_invariant:
  "(run who init evs = Inr s \<longrightarrow> registry_inv s)
   \<and> (list_all payload_present evs \<longrightarrow> (\<exists>s'. run who init evs = Inr s' \<and> registry_inv s'))"
proof -
  have i: "registry_inv init" "routes_owned who init"
    by (simp_all add: registry_inv_def routes_owned_def init_def)
  have a: "registry_inv s'" if "run who init evs = Inr s'" for s'
    using run_inv [OF that i] by blast
  have b: "\<exists>s'. run who init evs = Inr s' \<and> registry_inv s'" if "list_all payload_present evs"
    using run_total [OF that, of who init] a by blast
  from a b show ?thesis by blast
qed


lemma ex_run_full: "run ex_who init ex_full = Inr ex_after"
  by (simp add: handler_defs ex_who_def init_def ex_after_def ex_trace_def ex_full_def)

theorem registry_invariant_witness:
  "run ex_who init ex_full = Inr ex_after
   \<and> list_all payload_present ex_full
   \<and> registry_inv ex_after
   \<and> snd ` set (userSocketMap ex_after) = {''c3''}
   \<and> fst ` set (onlineUsers ex_after) = {''c2'', ''c3''}"
proof -
  from registry_invariant [of ex_who ex_full ex_after] ex_run_full
  have "registry_inv ex_after" by blast
  moreover have "list_all payload_present ex_full"
    by (simp add: ex_full_def ex_trace_def)
  moreover have "snd ` set (userSocketMap ex_after) = {''c3''}"
    and "fst ` set (onlineUsers ex_after) = {''c2'', ''c3''}"
    by (simp_all add: ex_after_def)
  ultimately show ?thesis using ex_run_full by blast
qed

section \<open>Busy sessions\<close>

lemma step_session:
  assumes st: "step who s e = Inr (s', acts)"
    and m: "map_of (onlineUsers s) c = Some usr"
    and nr: "\<not> rewrites_session c e"
  shows "\<exists>usr'. map_of (onlineUsers s') c = Some usr'
           \<and> username usr' = username usr \<and> avatar usr' = avatar usr
           \<and> (isBusy usr \<longrightarrow> isBusy usr')
           \<and> currentRoom usr' = last_room c (currentRoom usr) [e]
           \<and> (isBusy usr' \<longrightarrow> isBusy usr \<or> (\<exists>data. e = Join c data))"
proof (cases e)
  case (Registered c' av)
  with nr have "c' \<noteq> c" by simp
  with step_maps [OF st] Registered m show ?thesis
    by (simp add: AList.update_conv')
next
  case (Disconnect c')
  with nr have "c' \<noteq> c" by simp
  with step_maps [OF st] Disconnect m show ?thesis
    by (simp add: AList.delete_conv')
next
  case (Join c' data)
  show ?thesis
  proof (cases "c' = c")
    case True
    with step_maps [OF st] Join m show ?thesis
      by (simp add: AList.update_conv')
  next
    case False
    with step_maps [OF st] Join m show ?thesis
      by (simp add: AList.update_conv' split: option.splits)
  qed
qed (use step_maps [OF st] m in simp_all)

lemma last_room_Cons: "last_room c r (e # es) = last_room c (last_room c r [e]) es"
  by (cases e) simp_all

lemma run_session:
  "run who s evs = Inr s' \<Longrightarrow> map_of (onlineUsers s) c = Some usr \<Longrightarrow> isBusy usr \<Longrightarrow>
   \<forall>e \<in> set evs. \<not> rewrites_session c e \<Longrightarrow>
   \<exists>usr'. map_of (onlineUsers s') c = Some usr' \<and> isBusy usr'
      \<and> username usr' = username usr \<and> currentRoom usr' = last_room c (currentRoom usr) evs"
proof (induction evs arbitrary: s usr)
  case Nil
  then show ?case by simp
next
  case (Cons e es)
  from Cons.prems(1) obtain s1 acts where st: "step who s e = Inr (s1, acts)"
    and rn: "run who s1 es = Inr s'"
    by (auto split: sum.splits)
  from Cons.prems(4) have ne: "\<not> rewrites_session c e"
    and nes: "\<forall>e \<in> set es. \<not> rewrites_session c e" by simp_all
  from step_session [OF st Cons.prems(2) ne] Cons.prems(3)
  obtain usr1 where m1: "map_of (onlineUsers s1) c = Some usr1" and b1: "isBusy usr1"
    and n1: "username usr1 = username usr"
    and r1: "currentRoom usr1 = last_room c (currentRoom usr) [e]"
    by blast
  from Cons.IH [OF rn m1 b1 nes] n1 r1 show ?case
    by (metis last_room_Cons)
qed

lemma busy_session_in_snapshot:
  assumes "map_of (onlineUsers s) c = Some usr" and "isBusy usr"
  shows "\<exists>e \<in> set (getUniqueOnlineUsers s). username e = username usr \<and> isBusy e"
proof -
  from assms(1) have mem: "usr \<in> snd ` set (onlineUsers s)"
    by (metis image_eqI map_of_SomeD snd_conv)
  then have "username usr \<in> username ` set (getUniqueOnlineUsers s)"
    by (simp add: snapshot_names)
  then obtain e where e: "e \<in> set (getUniqueOnlineUsers s)" and n: "username e = username usr"
    by auto
  from snapshot_busy [OF e] mem assms(2) n have "isBusy e" by auto
  with e n show ?thesis by blast
qed

lemma join_marks_busy:
  assumes "join s sock data = Inr (s1, acts)" and "map_of (onlineUsers s) (socket_id sock) = Some usr"
  shows "map_of (onlineUsers s1) (socket_id sock)
           = Some (usr\<lparr>isBusy := True, currentRoom := js_prop data ''room''\<rparr>)"
  using assms by (auto simp add: join_def Let_def AList.update_conv' split: if_splits)

lemma step_other_keeps:
  assumes st: "step who s e = Inr (s', acts)"
    and nr: "\<not> rewrites_session c e" and nj: "\<forall>d. e \<noteq> Join c d"
  shows "map_of (onlineUsers s') c = map_of (onlineUsers s) c"
proof (cases e)
  case (Registered c' av)
  with nr have "c' \<noteq> c" by simp
  with step_maps [OF st] Registered show ?thesis
    by (simp add: AList.update_conv')
next
  case (Disconnect c')
  with nr have "c' \<noteq> c" by simp
  with step_maps [OF st] Disconnect show ?thesis
    by (simp add: AList.delete_conv')
next
  case (Join c' data)
  with nj have "c' \<noteq> c" by simp
  with step_maps [OF st] Join show ?thesis
    by (simp add: AList.update_conv' split: option.splits)
qed (use step_maps [OF st] in simp_all)

text \<open>
  C10, as the code has it. A registration creates the session with \<open>isBusy\<close> false
  and \<open>currentRoom\<close> null. No event other than the session's own registration, join
  and disconnect changes its record. Once a registered session has joined, then for as
  long as it does not disconnect (a connection registers once, so its registration does
  not recur), its \<open>isBusy\<close> is true and the snapshot reports its username busy. Its
  \<open>currentRoom\<close> is whatever room value its latest join carried: the join handler
  stores \<open>data.room\<close> unguarded, so a later join that names no room overwrites it with
  \<open>null\<close> or \<open>undefined\<close>.
\<close>

theorem busy_is_monotone:
  "map_of (onlineUsers (fst (connection s sock av))) (socket_id sock)
     = Some \<lparr>username = socket_username sock, isBusy = False, currentRoom = JNull, avatar = av\<rparr>
   \<and> (step who s0 e = Inr (s1, acts) \<and> \<not> rewrites_session c e \<and> (\<forall>d. e \<noteq> Join c d)
      \<longrightarrow> map_of (onlineUsers s1) c = map_of (onlineUsers s0) c)
   \<and> (map_of (onlineUsers s0) c = Some usr \<and> run who s0 (Join c data # evs) = Inr s'
        \<and> (\<forall>e \<in> set evs. \<not> rewrites_session c e)
      \<longrightarrow> (\<exists>usr'. map_of (onlineUsers s') c = Some usr' \<and> isBusy usr'
              \<and> currentRoom usr' = last_room c (js_prop data ''room'') evs
              \<and> username usr' = username usr)
          \<and> (\<exists>e \<in> set (getUniqueOnlineUsers s'). username e = username usr \<and> isBusy e))"
proof (intro conjI impI)
  show "map_of (onlineUsers (fst (connection s sock av))) (socket_id sock)
     = Some \<lparr>username = socket_username sock, isBusy = False, currentRoom = JNull, avatar = av\<rparr>"
    by (simp add: connection_def Let_def AList.update_conv')
next
  assume "step who s0 e = Inr (s1, acts) \<and> \<not> rewrites_session c e \<and> (\<forall>d. e \<noteq> Join c d)"
  then show "map_of (onlineUsers s1) c = map_of (onlineUsers s0) c"
    using step_other_keeps by blast
next
  assume a: "map_of (onlineUsers s0) c = Some usr \<and> run who s0 (Join c data # evs) = Inr s'
        \<and> (\<forall>e \<in> set evs. \<not> rewrites_session c e)"
  then obtain s1 acts where j: "join s0 (sock_of who c) data = Inr (s1, acts)"
    and rn: "run who s1 evs = Inr s'"
    by (auto split: sum.splits)
  from a have m0: "map_of (onlineUsers s0) (socket_id (sock_of who c)) = Some usr"
    by (simp add: sock_of_def)
  from join_marks_busy [OF j m0]
  have m1: "map_of (onlineUsers s1) c = Some (usr\<lparr>isBusy := True, currentRoom := js_prop data ''room''\<rparr>)"
    by (simp add: sock_of_def)
  from a have nes: "\<forall>e \<in> set evs. \<not> rewrites_session c e" by blast
  from run_session [OF rn m1 _ nes]
  obtain usr' where r: "map_of (onlineUsers s') c = Some usr'" "isBusy usr'"
    "username usr' = username usr" "currentRoom usr' = last_room c (js_prop data ''room'') evs"
    by auto
  then show "\<exists>usr'. map_of (onlineUsers s') c = Some usr' \<and> isBusy usr'
              \<and> currentRoom usr' = last_room c (js_prop data ''room'') evs
              \<and> username usr' = username usr"
    by blast
  from busy_session_in_snapshot [OF r(1,2)] r(3)
  show "\<exists>e \<in> set (getUniqueOnlineUsers s'). username e = username usr \<and> isBusy e"
    by simp
qed


lemma ex_run_two: "run ex_who ex_two ex_trace = Inr ex_busy"
  by (simp add: handler_defs ex_who_def ex_two_def ex_busy_def ex_trace_def)

theorem busy_is_monotone_witness:
  "map_of (onlineUsers ex_two) ''c1''
     = Some \<lparr>username = ''alice'', isBusy = False, currentRoom = JNull, avatar = JNull\<rparr>
   \<and> run ex_who ex_two (Join ''c1'' (JObj [(''room'', JStr ''r1'')]) # [Registered ''c3'' JNull]) = Inr ex_busy
   \<and> filter (rewrites_session ''c1'') [Registered ''c3'' JNull] = []
   \<and> (\<exists>usr'. map_of (onlineUsers ex_busy) ''c1'' = Some usr' \<and> isBusy usr'
         \<and> currentRoom usr' = JStr ''r1'')
   \<and> (\<exists>e \<in> set (getUniqueOnlineUsers ex_busy). username e = ''alice'' \<and> isBusy e)"
proof -
  have m: "map_of (onlineUsers ex_two) ''c1''
     = Some \<lparr>username = ''alice'', isBusy = False, currentRoom = JNull, avatar = JNull\<rparr>"
    by (simp add: ex_two_def)
  have r: "run ex_who ex_two (Join ''c1'' (JObj [(''room'', JStr ''r1'')]) # [Registered ''c3'' JNull]) = Inr ex_busy"
    using ex_run_two by (simp add: ex_trace_def)
  have f: "\<forall>e \<in> set [Registered ''c3'' JNull]. \<not> rewrites_session ''c1'' e" by simp
  have f': "filter (rewrites_session ''c1'') [Registered ''c3'' JNull] = []" by simp
  from busy_is_monotone [where ?s0.0 = ex_two and c = "''c1''" and who = ex_who and s' = ex_busy
      and data = "JObj [(''room'', JStr ''r1'')]" and evs = "[Registered ''c3'' JNull]"
      and usr = "\<lparr>username = ''alice'', isBusy = False, currentRoom = JNull, avatar = JNull\<rparr>"]
    m r f
  have a: "\<exists>usr'. map_of (onlineUsers ex_busy) ''c1'' = Some usr' \<and> isBusy usr'
              \<and> currentRoom usr' = last_room ''c1'' (js_prop (JObj [(''room'', JStr ''r1'')]) ''room'')
                   [Registered ''c3'' JNull]
              \<and> username usr' = ''alice''"
    and b: "\<exists>e \<in> set (getUniqueOnlineUsers ex_busy). username e = ''alice'' \<and> isBusy e"
    by simp_all
  from a have "\<exists>usr'. map_of (onlineUsers ex_busy) ''c1'' = Some usr' \<and> isBusy usr'
         \<and> currentRoom usr' = JStr ''r1'' \<and> username usr' = ''alice''"
    by simp
  then have a': "\<exists>usr'. map_of (onlineUsers ex_busy) ''c1'' = Some usr' \<and> isBusy usr'
         \<and> currentRoom usr' = JStr ''r1''"
    by blast
  from m r f' a' b show ?thesis by blast
qed

text \<open>
  C10 as stated fails in its clause that no operation clears \<open>currentRoom\<close> while the
  session lives. The registered session \<open>c1\<close> joins room \<open>r1\<close> and then sends a join
  whose room is \<open>null\<close>, or a join with the empty object: both runs complete, the
  session is still in \<open>onlineUsers\<close> and still busy, and its \<open>currentRoom\<close> has gone
  from \<open>r1\<close> to \<open>null\<close>, respectively \<open>undefined\<close>.
\<close>

theorem current_room_cleared_counterexample:
  "run ex_who ex_two [Join ''c1'' (JObj [(''room'', JStr ''r1'')])] = Inr ex_joined
   \<and> map_of (onlineUsers ex_joined) ''c1''
       = Some \<lparr>username = ''alice'', isBusy = True, currentRoom = JStr ''r1'', avatar = JNull\<rparr>
   \<and> run ex_who ex_joined [Join ''c1'' (JObj [(''room'', JNull)])] = Inr (ex_cleared JNull)
   \<and> map_of (onlineUsers (ex_cleared JNull)) ''c1''
       = Some \<lparr>username = ''alice'', isBusy = True, currentRoom = JNull, avatar = JNull\<rparr>
   \<and> run ex_who ex_joined [Join ''c1'' (JObj [])] = Inr (ex_cleared JUndefined)
   \<and> map_of (onlineUsers (ex_cleared JUndefined)) ''c1''
       = Some \<lparr>username = ''alice'', isBusy = True, currentRoom = JUndefined, avatar = JNull\<rparr>
   \<and> run ex_who ex_two
         [Join ''c1'' (JObj [(''room'', JStr ''r1'')]), Join ''c1'' (JObj [(''room'', JNull)])]
       = Inr (ex_cleared JNull)"
  by (simp add: handler_defs ex_who_def ex_two_def ex_joined_def ex_cleared_def)

end
